theory Spec2Isabelle
  imports Complex_Main
begin

section \<open>Go values shared by both packages\<close>

text \<open>
  A Go \<open>error\<close> is an opaque value carrying a message; a nilable error is an
  \<open>error option\<close>, with \<open>None\<close> for \<open>nil\<close>. Go functions return the pair
  \<open>(value, err)\<close> and both components are always present, so the model returns pairs
  as well: a caller tells success from failure by \<open>err\<close> alone.

  The type \<open>'f\<close> stands for \<open>float64\<close>. The code never computes with a price, it
  only produces the constant \<open>0\<close> and hands prices on, so the model needs a zero and
  nothing else.
\<close>

datatype error = Error string

section \<open>Strings as Go reads them\<close>

text \<open>
  A Go string is a sequence of bytes, here a \<open>string\<close> of 8-bit characters; where
  the code looks at its text, the bytes are read as UTF-8. The functions of this
  section follow Go's packages \<open>unicode/utf8\<close>, \<open>unicode\<close> and \<open>strings\<close>. Bytes
  and runes are natural numbers; the shifts and masks of the Go code are written with
  \<open>div\<close> and \<open>mod\<close>.
\<close>

definition RuneError :: nat where
  "RuneError = 0xFFFD"

text \<open>
  The table \<open>first\<close> of \<open>unicode/utf8\<close> for the leading bytes of a sequence of
  more than one byte: the length of the sequence and the range accepted for its second
  byte. Every other byte from \<open>0x80\<close> on is no leading byte.
\<close>

definition first :: "nat \<Rightarrow> (nat \<times> nat \<times> nat) option" where
  "first s0 =
     (if 0xC2 \<le> s0 \<and> s0 \<le> 0xDF then Some (2, 0x80, 0xBF)
      else if s0 = 0xE0 then Some (3, 0xA0, 0xBF)
      else if 0xE1 \<le> s0 \<and> s0 \<le> 0xEC then Some (3, 0x80, 0xBF)
      else if s0 = 0xED then Some (3, 0x80, 0x9F)
      else if 0xEE \<le> s0 \<and> s0 \<le> 0xEF then Some (3, 0x80, 0xBF)
      else if s0 = 0xF0 then Some (4, 0x90, 0xBF)
      else if 0xF1 \<le> s0 \<and> s0 \<le> 0xF3 then Some (4, 0x80, 0xBF)
      else if s0 = 0xF4 then Some (4, 0x80, 0x8F)
      else None)"

text \<open>
  \<open>utf8.DecodeRuneInString\<close>: the first rune of the bytes and its width. An empty
  string gives \<open>(RuneError, 0)\<close>, an encoding that is not well-formed
  \<open>(RuneError, 1)\<close>.
\<close>

definition DecodeRune :: "nat list \<Rightarrow> nat \<times> nat" where
  "DecodeRune s =
     (case s of
        [] \<Rightarrow> (RuneError, 0)
      | s0 # t \<Rightarrow>
          if s0 < 0x80 then (s0, 1)
          else
            (case first s0 of
               None \<Rightarrow> (RuneError, 1)
             | Some (sz, lo, hi) \<Rightarrow>
                 if length s < sz then (RuneError, 1)
                 else
                   (let s1 = s ! 1 in
                    if s1 < lo \<or> hi < s1 then (RuneError, 1)
                    else if sz \<le> 2 then ((s0 mod 32) * 64 + s1 mod 64, 2)
                    else
                      (let s2 = s ! 2 in
                       if s2 < 0x80 \<or> 0xBF < s2 then (RuneError, 1)
                       else if sz \<le> 3 then
                         ((s0 mod 16) * 4096 + (s1 mod 64) * 64 + s2 mod 64, 3)
                       else
                         (let s3 = s ! 3 in
                          if s3 < 0x80 \<or> 0xBF < s3 then (RuneError, 1)
                          else ((s0 mod 8) * 262144 + (s1 mod 64) * 4096
                                  + (s2 mod 64) * 64 + s3 mod 64, 4))))))"

text \<open>The runes of a string, as \<open>for _, c := range s\<close> yields them.\<close>

function runes :: "nat list \<Rightarrow> nat list" where
  "runes [] = []"
| "runes (b # bs) = (let (r, w) = DecodeRune (b # bs) in r # runes (drop w (b # bs)))"
  by pat_completeness auto
termination
proof (relation "measure length")
  show "wf (measure length)" by simp
next
  fix b :: nat and bs :: "nat list" and x :: "nat \<times> nat" and r w :: nat
  assume "x = DecodeRune (b # bs)" and "(r, w) = x"
  then have "0 < w"
    by (auto simp add: DecodeRune_def Let_def split: if_splits option.splits prod.splits)
  then show "(drop w (b # bs), b # bs) \<in> measure length" by simp
qed

text \<open>\<open>utf8.ValidString\<close>: no step of the decoding meets an ill-formed byte.\<close>

function ValidString :: "nat list \<Rightarrow> bool" where
  "ValidString [] = True"
| "ValidString (b # bs) =
     (let (r, w) = DecodeRune (b # bs)
      in if r = RuneError \<and> w = 1 then False else ValidString (drop w (b # bs)))"
  by pat_completeness auto
termination
proof (relation "measure length")
  show "wf (measure length)" by simp
next
  fix b :: nat and bs :: "nat list" and x :: "nat \<times> nat" and r w :: nat
  assume "x = DecodeRune (b # bs)" and "(r, w) = x"
  then have "0 < w"
    by (auto simp add: DecodeRune_def Let_def split: if_splits option.splits prod.splits)
  then show "(drop w (b # bs), b # bs) \<in> measure length" by simp
qed

text \<open>
  \<open>utf8.AppendRune\<close>: the bytes of a rune. A surrogate or a value beyond the last
  code point is written as \<open>RuneError\<close>.
\<close>

definition EncodeRune :: "nat \<Rightarrow> nat list" where
  "EncodeRune r =
     (if r \<le> 0x7F then [r]
      else if r \<le> 0x7FF then [0xC0 + r div 64, 0x80 + r mod 64]
      else
        (let r = (if 0x10FFFF < r \<or> (0xD800 \<le> r \<and> r \<le> 0xDFFF) then RuneError else r)
         in if r \<le> 0xFFFF then [0xE0 + r div 4096, 0x80 + (r div 64) mod 64, 0x80 + r mod 64]
            else [0xF0 + r div 262144, 0x80 + (r div 4096) mod 64,
                  0x80 + (r div 64) mod 64, 0x80 + r mod 64]))"

text \<open>\<open>utf8.ValidRune\<close>: the code points that are no surrogates.\<close>

definition ValidRune :: "nat \<Rightarrow> bool" where
  "ValidRune r = (r < 0xD800 \<or> (0xDFFF < r \<and> r \<le> 0x10FFFF))"

text \<open>
  \<open>unicode.ToUpper\<close>. Up to \<open>0x7F\<close> the source maps the letters \<open>a\<close> to \<open>z\<close>
  itself; beyond, it looks the rune up in the case tables of Unicode, which are the
  parameter \<open>tab\<close>.
\<close>

definition unicode_ToUpper :: "(nat \<Rightarrow> nat) \<Rightarrow> nat \<Rightarrow> nat" where
  "unicode_ToUpper tab r =
     (if r \<le> 0x7F then (if 0x61 \<le> r \<and> r \<le> 0x7A then r - 0x20 else r) else tab r)"

text \<open>
  \<open>strings.Map\<close>: every rune of the string is replaced by the encoding of its image
  (a mapping to a negative value, which would drop the rune, is not needed here).
\<close>

definition strings_Map :: "(nat \<Rightarrow> nat) \<Rightarrow> nat list \<Rightarrow> nat list" where
  "strings_Map mapping s = concat (map (\<lambda>c. EncodeRune (mapping c)) (runes s))"

text \<open>
  \<open>strings.ToUpper\<close>. A string of ASCII bytes only is mapped byte by byte, the
  letters \<open>a\<close> to \<open>z\<close> moving down by 32; any other string goes through
  \<open>strings.Map\<close> with \<open>unicode.ToUpper\<close>.
\<close>

definition upper_byte :: "char \<Rightarrow> char" where
  "upper_byte c =
     (let b = (of_char c :: nat) in if 97 \<le> b \<and> b \<le> 122 then char_of (b - 32) else c)"

definition ToUpper :: "(nat \<Rightarrow> nat) \<Rightarrow> string \<Rightarrow> string" where
  "ToUpper tab s =
     (if list_all (\<lambda>c. (of_char c :: nat) < 0x80) s then map upper_byte s
      else map char_of (strings_Map (unicode_ToUpper tab) (map of_char s)))"

section \<open>Package twelvedata\<close>

text \<open>The format string \<open>twelvedataURL\<close> applied to its two \<open>%s\<close> arguments.\<close>

definition twelvedataURL :: "string \<Rightarrow> string \<Rightarrow> string" where
  "twelvedataURL symbol apikey =
     ''https://api.twelvedata.com/price?symbol='' @ symbol @ ''&apikey='' @ apikey"

text \<open>The struct \<open>price\<close> that the response body is decoded into.\<close>

record price =
  Price :: string

text \<open>
  The library calls \<open>Quote\<close> makes are parameters of the model: the HTTP round trip,
  reading the body, decoding JSON into a \<open>price\<close> and parsing a float. Each either
  fails with an error or yields its result. The last parameter is the upper-case
  mapping of the Unicode case tables, which \<open>strings.ToUpper\<close> consults for the
  runes beyond ASCII.
\<close>

record ('r, 'f) net =
  http_Get :: "string \<Rightarrow> error + 'r"
  io_ReadAll :: "'r \<Rightarrow> error + string"
  json_Unmarshal :: "string \<Rightarrow> error + price"
  strconv_ParseFloat :: "string \<Rightarrow> error + 'f"
  upperCase :: "nat \<Rightarrow> nat"

text \<open>
  \<open>Quote\<close> returns the current value of a symbol. The variable \<open>err\<close> of the source
  is reassigned by every call; at the test \<open>data.Price == ""\<close> it holds the result of
  \<open>json.Unmarshal\<close>, which is \<open>nil\<close> on that path, and that is what is returned.
\<close>

definition Quote :: "('r, 'f::zero) net \<Rightarrow> string \<Rightarrow> string \<Rightarrow> 'f \<times> error option" where
  "Quote n symbol apikey =
     (let symbol = ToUpper (upperCase n) symbol in
      case http_Get n (twelvedataURL symbol apikey) of
        Inl err \<Rightarrow> (0, Some err)
      | Inr resp \<Rightarrow>
          (case io_ReadAll n resp of
             Inl err \<Rightarrow> (0, Some err)
           | Inr body \<Rightarrow>
               (case json_Unmarshal n body of
                  Inl err \<Rightarrow> (0, Some err)
                | Inr data \<Rightarrow>
                    (let err = (None :: error option) in
                     if Price data = [] then (0, err)
                     else
                       (case strconv_ParseFloat n (Price data) of
                          Inl err \<Rightarrow> (0, Some err)
                        | Inr price \<Rightarrow> (price, None))))))"

text \<open>
  A stub of the network for concrete runs: every request is answered with the given
  body; the decoder knows the empty object, an empty price and the price \<open>0\<close>. Its
  case table knows one letter beyond ASCII, \<open>U+00E9\<close>, with the capital \<open>U+00C9\<close>.
\<close>

definition stub_net :: "string \<Rightarrow> (unit, real) net" where
  "stub_net body =
     \<lparr> http_Get = (\<lambda>url. Inr ()),
       io_ReadAll = (\<lambda>resp. Inr body),
       json_Unmarshal = (\<lambda>b.
          if b = ''{}'' then Inr \<lparr>Price = []\<rparr>
          else if b = ''{\"price\":\"\"}'' then Inr \<lparr>Price = []\<rparr>
          else if b = ''{\"price\":\"0\"}'' then Inr \<lparr>Price = ''0''\<rparr>
          else Inl (Error ''invalid character'')),
       strconv_ParseFloat = (\<lambda>s. if s = ''0'' then Inr 0 else Inl (Error ''invalid syntax'')),
       upperCase = (\<lambda>r. if r = 0xE9 then 0xC9 else r) \<rparr>"

section \<open>Package main: the request\<close>

text \<open>
  \<open>newCollector\<close> reads one thing from the URL, \<open>myurl.Query()\<close>. The model of a
  URL is its raw query string, and \<open>Query\<close> follows the parser of Go's \<open>net/url\<close>:
  the query is cut at every \<open>&\<close>; a piece that is empty or holds a semicolon is
  skipped; a piece is cut at its first \<open>=\<close> into key and value; both are unescaped
  (\<open>+\<close> is a space, \<open>%XX\<close> a byte) and a piece whose key or value does not unescape
  is skipped; the value is appended to the values of its key. \<open>Query\<close> drops the
  parser's error and returns what was parsed.
\<close>

record url =
  RawQuery :: string

type_synonym Values = "string \<rightharpoonup> string list"

definition ishex :: "char \<Rightarrow> bool" where
  "ishex c =
     (let b = (of_char c :: nat)
      in (48 \<le> b \<and> b \<le> 57) \<or> (97 \<le> b \<and> b \<le> 102) \<or> (65 \<le> b \<and> b \<le> 70))"

definition unhex :: "char \<Rightarrow> nat" where
  "unhex c =
     (let b = (of_char c :: nat)
      in if 48 \<le> b \<and> b \<le> 57 then b - 48
         else if 97 \<le> b \<and> b \<le> 102 then b - 97 + 10
         else if 65 \<le> b \<and> b \<le> 70 then b - 65 + 10
         else 0)"

fun QueryUnescape :: "string \<Rightarrow> string option" where
  "QueryUnescape [] = Some []"
| "QueryUnescape [c] =
     (if c = CHR ''%'' then None else if c = CHR ''+'' then Some [CHR '' ''] else Some [c])"
| "QueryUnescape [c, d] =
     (if c = CHR ''%'' then None
      else map_option ((#) (if c = CHR ''+'' then CHR '' '' else c)) (QueryUnescape [d]))"
| "QueryUnescape (c # h1 # h2 # rest) =
     (if c = CHR ''%'' then
        (if ishex h1 \<and> ishex h2
         then map_option ((#) (char_of (unhex h1 * 16 + unhex h2))) (QueryUnescape rest)
         else None)
      else map_option ((#) (if c = CHR ''+'' then CHR '' '' else c))
             (QueryUnescape (h1 # h2 # rest)))"

text \<open>\<open>strings.Cut\<close> at the first occurrence of a one-byte separator.\<close>

definition Cut :: "string \<Rightarrow> char \<Rightarrow> string \<times> string" where
  "Cut s sep = (takeWhile (\<lambda>c. c \<noteq> sep) s, drop 1 (dropWhile (\<lambda>c. c \<noteq> sep) s))"

text \<open>
  \<open>strings.Split\<close> at a one-byte separator: the pieces between the separators, in
  order. There is one piece more than there are separators; the empty string splits
  into the one empty piece.
\<close>

fun Split :: "string \<Rightarrow> char \<Rightarrow> string list" where
  "Split [] sep = [[]]"
| "Split (c # cs) sep =
     (if c = sep then [] # Split cs sep
      else (case Split cs sep of
              [] \<Rightarrow> [[c]]
            | w # ws \<Rightarrow> (c # w) # ws))"

definition parsePair :: "Values \<Rightarrow> string \<Rightarrow> Values" where
  "parsePair m key =
     (if CHR '';'' \<in> set key then m
      else if key = [] then m
      else
        (let (key, val) = Cut key CHR ''='' in
         case QueryUnescape key of
           None \<Rightarrow> m
         | Some key \<Rightarrow>
             (case QueryUnescape val of
                None \<Rightarrow> m
              | Some val \<Rightarrow>
                  m(key \<mapsto> (case m key of None \<Rightarrow> [] | Some vs \<Rightarrow> vs) @ [val]))))"

definition Query :: "url \<Rightarrow> Values" where
  "Query u = foldl parsePair Map.empty (Split (RawQuery u) CHR ''&'')"

text \<open>The collector holds the symbols of one scrape request.\<close>

record collector =
  symbols :: "string list"

text \<open>
  \<open>newCollector\<close> returns a collector with the symbols of the URL: every value of
  the parameter \<open>symbols\<close> is split at its commas and the pieces are appended, in
  order. A query without the key \<open>symbols\<close> is the one error.
\<close>

definition newCollector :: "url \<Rightarrow> error + collector" where
  "newCollector myurl =
     (case Query myurl ''symbols'' of
        None \<Rightarrow> Inl (Error ''missing symbols in query'')
      | Some qvalues \<Rightarrow>
          Inr \<lparr> symbols = foldl (\<lambda>acc qvalue. acc @ Split qvalue CHR '','') [] qvalues \<rparr>)"

section \<open>Package main: values, cache and metrics\<close>

text \<open>
  What \<open>cachedFetcher\<close> returns and \<open>Memoize\<close> hands back is an \<open>interface{}\<close>:
  the untyped \<open>nil\<close>, or a boxed \<open>float64\<close>.
\<close>

datatype 'f iface = INil | IFloat64 'f

text \<open>Times and durations are counted in nanoseconds, as \<open>time.Duration\<close> does.\<close>

type_synonym Duration = nat

definition Minute :: Duration where
  "Minute = 60 * 1000000000"

text \<open>
  Modelled from the spec: the cache entry of the memoizer, whose package
  (\<open>go-memoize\<close>) is not among the sources. An entry is keyed by symbol and holds the
  last result, a quote or an error, and the time of its fetch.
\<close>

record 'f entry =
  e_value :: "'f iface"
  e_err :: "error option"
  e_stamp :: nat

text \<open>
  Modelled from the spec: the memoizer, not among the sources. It has a freshness
  duration, a longer retention duration, and at most one entry per symbol.
\<close>

record 'f Memoizer =
  freshness :: Duration
  retention :: Duration
  entries :: "string \<rightharpoonup> 'f entry"

text \<open>
  Modelled from the spec: the constructor of the memoizer, not among the sources; its
  arguments are the freshness and the retention duration, and the cache starts empty.
\<close>

definition NewMemoizer :: "Duration \<Rightarrow> Duration \<Rightarrow> 'f Memoizer" where
  "NewMemoizer fresh retain = \<lparr> freshness = fresh, retention = retain, entries = Map.empty \<rparr>"

text \<open>
  Modelled from the spec: the lookup of the memoizer, not among the sources. An entry
  is reusable at time \<open>t\<close> unless it is older than the freshness duration.
\<close>

definition Storage_Get :: "'f Memoizer \<Rightarrow> nat \<Rightarrow> string \<Rightarrow> 'f entry option" where
  "Storage_Get m t key =
     (case entries m key of
        None \<Rightarrow> None
      | Some e \<Rightarrow> if e_stamp e + freshness m < t then None else Some e)"

text \<open>
  Modelled from the spec: the store of the memoizer, not among the sources. The result,
  success or error, replaces the entry of the symbol, with a fresh time stamp.
\<close>

definition Storage_Set :: "'f Memoizer \<Rightarrow> nat \<Rightarrow> string \<Rightarrow> 'f iface \<Rightarrow> error option \<Rightarrow> 'f Memoizer" where
  "Storage_Set m t key v err =
     m\<lparr> entries := (entries m)(key \<mapsto> \<lparr> e_value = v, e_err = err, e_stamp = t \<rparr>) \<rparr>"

text \<open>
  Modelled from the spec: the eviction of the memoizer, not among the sources. Run at
  time \<open>t\<close>, it removes the entries older than the retention duration.
\<close>

definition purge :: "nat \<Rightarrow> 'f Memoizer \<Rightarrow> 'f Memoizer" where
  "purge t m =
     m\<lparr> entries := (\<lambda>key. case entries m key of
                          None \<Rightarrow> None
                        | Some e \<Rightarrow> if e_stamp e + retention m < t then None else Some e) \<rparr>"

text \<open>
  The sample sent on the channel: a constant gauge with its description and labels.
\<close>

record 'f Metric =
  fqName :: string
  helpText :: string
  labelNames :: "string list"
  labelValues :: "string list"
  gauge :: 'f

text \<open>
  \<open>prometheus.MustNewConstMetric\<close>, applied to the description that \<open>NewDesc\<close>
  builds from a name, a help text and the label names. The library checks the label
  values: there must be as many as label names, and each must be valid UTF-8. If a
  check fails the function panics, which is the \<open>Inl\<close> of the result with the value
  of the panic.
\<close>

definition MustNewConstMetric ::
  "string \<Rightarrow> string \<Rightarrow> string list \<Rightarrow> 'f \<Rightarrow> string list \<Rightarrow> error + 'f Metric" where
  "MustNewConstMetric name hlp ls v lvs =
     (if length lvs \<noteq> length ls then Inl (Error ''inconsistent label cardinality'')
      else if \<not> list_all (\<lambda>val. ValidString (map of_char val)) lvs
        then Inl (Error ''label value is not valid UTF-8'')
      else Inr \<lparr> fqName = name, helpText = hlp, labelNames = ls, labelValues = lvs, gauge = v \<rparr>)"

text \<open>The lines the collector writes to its log and to the standard output.\<close>

datatype 'f line =
    EnvNotSet
  | ErrorLookingUp string error
  | InvalidQuoteData string "'f iface"
  | Retrieved string string 'f

text \<open>
  The state the collector works on: the clock, the three metrics of the collector
  itself (\<open>queryDuration\<close> as the list of its observations), the package-level cache,
  the channel \<open>ch\<close> as the list of samples sent so far, the lines written, and the
  requests made to the quote provider, by symbol.
\<close>

record 'f state =
  now :: nat
  queryDuration :: "Duration list"
  queryCount :: nat
  errorCount :: nat
  cache :: "'f Memoizer"
  ch :: "'f Metric list"
  written :: "'f line list"
  upstream :: "string list"

text \<open>
  The surroundings of a collector: the flags, the network behind \<open>twelvedata.Quote\<close>,
  the function \<open>stonks.Quote\<close> (its package is not among the sources: a quote provider
  takes a symbol and returns a price and an error), and the time a request to the
  provider takes.
\<close>

record ('r, 'f) env =
  flagEnableTwelvedata :: bool
  flagTwelvedataApiKey :: string
  network :: "('r, 'f) net"
  stonks_Quote :: "string \<Rightarrow> 'f \<times> error option"
  latency :: "string \<Rightarrow> Duration"

text \<open>A call of a quote provider: one request goes out and the clock moves on.\<close>

definition request :: "('r, 'f) env \<Rightarrow> string \<Rightarrow> 'f state \<Rightarrow> 'f state" where
  "request env symbol st =
     st\<lparr> now := now st + latency env symbol, upstream := upstream st @ [symbol] \<rparr>"

section \<open>Package main: Collect\<close>

text \<open>
  The closure \<open>cachedFetcher\<close> of the loop body, for the loop's current symbol. With
  the twelvedata provider enabled and no API key it prints a line and returns
  \<open>nil, nil\<close>; the \<open>float64\<close> of a provider is boxed into the interface.
\<close>

definition cachedFetcher ::
  "('r, 'f::zero) env \<Rightarrow> string \<Rightarrow> 'f state \<Rightarrow> ('f iface \<times> error option) \<times> 'f state" where
  "cachedFetcher env symbol st =
     (if flagEnableTwelvedata env then
        (if flagTwelvedataApiKey env = [] then
           ((INil, None), st\<lparr> written := written st @ [EnvNotSet] \<rparr>)
         else
           (let (p, err) = Quote (network env) symbol (flagTwelvedataApiKey env)
            in ((IFloat64 p, err), request env symbol st)))
      else
        (let (p, err) = stonks_Quote env symbol
         in ((IFloat64 p, err), request env symbol st)))"

text \<open>
  Modelled from the spec: \<open>Memoize\<close> of the memoizer, not among the sources. If a
  non-expired entry exists for the key, its stored value is returned with the flag
  \<open>True\<close> and the function is not called. Otherwise the function is called once,
  its result (success or error) is stored with a fresh time stamp, and returned with
  the flag \<open>False\<close>.
\<close>

definition Memoize ::
  "string \<Rightarrow> ('f state \<Rightarrow> ('f iface \<times> error option) \<times> 'f state) \<Rightarrow> 'f state
     \<Rightarrow> ('f iface \<times> error option \<times> bool) \<times> 'f state" where
  "Memoize key fn st =
     (case Storage_Get (cache st) (now st) key of
        Some e \<Rightarrow> ((e_value e, e_err e, True), st)
      | None \<Rightarrow>
          (let ((data, innerErr), st1) = fn st
           in ((data, innerErr, False),
               st1\<lparr> cache := Storage_Set (cache st1) (now st1) key data innerErr \<rparr>)))"

text \<open>
  How a pass of the loop ends: the body is completed and the loop goes on to the next
  symbol; or the body executes \<open>return\<close>, which leaves \<open>Collect\<close>; or it panics
  in \<open>MustNewConstMetric\<close>, which leaves \<open>Collect\<close> as well, with nothing sent.
  For the loop and for \<open>Collect\<close> as a whole, \<open>Completed\<close> says that the loop has
  run over all the symbols.
\<close>

datatype flow = Completed | Returned | Panicked

text \<open>
  One pass of the loop of \<open>Collect\<close> for one symbol: how it ends, and the state it
  leaves.
\<close>

definition collect_symbol ::
  "('r, 'f::zero) env \<Rightarrow> string \<Rightarrow> 'f state \<Rightarrow> flow \<times> 'f state" where
  "collect_symbol env symbol st =
     (let start = now st;
          ((qret, err, cached), st) = Memoize symbol (cachedFetcher env symbol) st;
          st = st\<lparr> queryDuration := queryDuration st @ [now st - start] \<rparr>
      in case err of
           Some e \<Rightarrow>
             (Returned, st\<lparr> errorCount := errorCount st + 1,
                             written := written st @ [ErrorLookingUp symbol e] \<rparr>)
         | None \<Rightarrow>
             (case qret of
                INil \<Rightarrow>
                  (Returned, st\<lparr> errorCount := errorCount st + 1,
                                  written := written st @ [InvalidQuoteData symbol qret] \<rparr>)
              | IFloat64 price \<Rightarrow>
                  (let ls = [''symbol'', ''name''];
                       lvs = [symbol, symbol];
                       c = (if cached then '' (cached)'' else []);
                       st = st\<lparr> written := written st @ [Retrieved symbol c price] \<rparr>
                   in case MustNewConstMetric ''quotes_exporter_price'' ''Asset Price.''
                             ls price lvs of
                        Inl panic \<Rightarrow> (Panicked, st)
                      | Inr metric \<Rightarrow> (Completed, st\<lparr> ch := ch st @ [metric] \<rparr>))))"

fun range_symbols ::
  "('r, 'f::zero) env \<Rightarrow> string list \<Rightarrow> 'f state \<Rightarrow> flow \<times> 'f state" where
  "range_symbols env [] st = (Completed, st)"
| "range_symbols env (symbol # rest) st =
     (case collect_symbol env symbol st of
        (Completed, st) \<Rightarrow> range_symbols env rest st
      | (Returned, st) \<Rightarrow> (Returned, st)
      | (Panicked, st) \<Rightarrow> (Panicked, st))"

text \<open>
  \<open>Collect\<close> retrieves quote data and sends the samples on the channel: it counts
  the query, then runs the loop over the symbols of the collector. The result says
  how the call ended and gives the state it leaves.
\<close>

definition collector_Collect ::
  "('r, 'f::zero) env \<Rightarrow> collector \<Rightarrow> 'f state \<Rightarrow> flow \<times> 'f state" where
  "collector_Collect env c st =
     range_symbols env (symbols c) (st\<lparr> queryCount := queryCount st + 1 \<rparr>)"

section \<open>A process at its start, and stub providers\<close>

text \<open>
  The package-level variables as the program initialises them: the metrics at zero,
  and the cache built with ten and twenty minutes.
\<close>

definition start_state :: "'f state" where
  "start_state =
     \<lparr> now = 0, queryDuration = [], queryCount = 0, errorCount = 0,
       cache = NewMemoizer (10 * Minute) (20 * Minute),
       ch = [], written = [], upstream = [] \<rparr>"

text \<open>
  The stub provider of the end-to-end scenario, in the place of \<open>stonks.Quote\<close>:
  \<open>AAA\<close> is quoted at 10, \<open>CCC\<close> at 30, and every other symbol fails.
\<close>

definition stub_Quote :: "string \<Rightarrow> real \<times> error option" where
  "stub_Quote symbol =
     (if symbol = ''AAA'' then (10, None)
      else if symbol = ''CCC'' then (30, None)
      else (0, Some (Error ''no quote'')))"

definition stub_env :: "(unit, real) env" where
  "stub_env =
     \<lparr> flagEnableTwelvedata = False, flagTwelvedataApiKey = [],
       network = stub_net ''{}'', stonks_Quote = stub_Quote, latency = (\<lambda>symbol. 1000000) \<rparr>"

text \<open>The same surroundings with the twelvedata provider selected and no API key.\<close>

definition nokey_env :: "(unit, real) env" where
  "nokey_env = stub_env\<lparr> flagEnableTwelvedata := True \<rparr>"

text \<open>What a sample says: its label values (symbol and name) and the price.\<close>

definition sample :: "'f Metric \<Rightarrow> string list \<times> 'f" where
  "sample m = (labelValues m, gauge m)"

text \<open>
  The stub surroundings with the twelvedata provider selected, a key, and a network
  that answers every request with the price \<open>0\<close>.
\<close>

definition quoting_env :: "(unit, real) env" where
  "quoting_env =
     stub_env\<lparr> flagEnableTwelvedata := True, flagTwelvedataApiKey := ''key'',
               network := stub_net ''{\"price\":\"0\"}'' \<rparr>"

text \<open>
  A cache in which no entry holds a \<open>float64\<close>: the cache of a process whose
  fetcher has returned \<open>nil\<close> from its start.
\<close>

definition holds_no_price :: "'f Memoizer \<Rightarrow> bool" where
  "holds_no_price m = (\<forall>key e. entries m key = Some e \<longrightarrow> e_value e = INil)"

section \<open>Properties of the UTF-8 functions\<close>

lemma EncodeRune_bytes: "b \<in> set (EncodeRune r) \<Longrightarrow> b < 256"
  unfolding EncodeRune_def RuneError_def Let_def
  by (auto split: if_splits)

lemma EncodeRune_not_Nil: "EncodeRune r \<noteq> []"
  unfolding EncodeRune_def Let_def by auto

lemma DecodeRune_1: "b0 < 0x80 \<Longrightarrow> DecodeRune (b0 # rest) = (b0, 1)"
  by (simp add: DecodeRune_def)

lemma DecodeRune_2:
  assumes "\<not> b0 < 0x80" and "first b0 = Some (2, lo, hi)" and "lo \<le> b1" and "b1 \<le> hi"
  shows "DecodeRune (b0 # b1 # rest) = ((b0 mod 32) * 64 + b1 mod 64, 2)"
  using assms by (simp add: DecodeRune_def)

lemma DecodeRune_3:
  assumes "\<not> b0 < 0x80" and "first b0 = Some (3, lo, hi)" and "lo \<le> b1" and "b1 \<le> hi"
    and "0x80 \<le> b2" and "b2 \<le> 0xBF"
  shows "DecodeRune (b0 # b1 # b2 # rest)
           = ((b0 mod 16) * 4096 + (b1 mod 64) * 64 + b2 mod 64, 3)"
  using assms by (simp add: DecodeRune_def)

lemma DecodeRune_4:
  assumes "\<not> b0 < 0x80" and "first b0 = Some (4, lo, hi)" and "lo \<le> b1" and "b1 \<le> hi"
    and "0x80 \<le> b2" and "b2 \<le> 0xBF" and "0x80 \<le> b3" and "b3 \<le> 0xBF"
  shows "DecodeRune (b0 # b1 # b2 # b3 # rest)
           = ((b0 mod 8) * 262144 + (b1 mod 64) * 4096 + (b2 mod 64) * 64 + b3 mod 64, 4)"
  using assms by (simp add: DecodeRune_def)

lemma first_cases:
  assumes "first b0 = Some (sz, lo, hi)"
  shows "(sz = 2 \<and> 0xC2 \<le> b0 \<and> b0 \<le> 0xDF \<and> lo = 0x80 \<and> hi = 0xBF)
       \<or> (sz = 3 \<and> b0 = 0xE0 \<and> lo = 0xA0 \<and> hi = 0xBF)
       \<or> (sz = 3 \<and> 0xE1 \<le> b0 \<and> b0 \<le> 0xEF \<and> b0 \<noteq> 0xED \<and> lo = 0x80 \<and> hi = 0xBF)
       \<or> (sz = 3 \<and> b0 = 0xED \<and> lo = 0x80 \<and> hi = 0x9F)
       \<or> (sz = 4 \<and> b0 = 0xF0 \<and> lo = 0x90 \<and> hi = 0xBF)
       \<or> (sz = 4 \<and> 0xF1 \<le> b0 \<and> b0 \<le> 0xF3 \<and> lo = 0x80 \<and> hi = 0xBF)
       \<or> (sz = 4 \<and> b0 = 0xF4 \<and> lo = 0x80 \<and> hi = 0x8F)"
  using assms unfolding first_def by (simp split: if_splits) 

lemma DecodeRune_shapes:
  assumes "\<not> s0 < 0x80" and "first s0 = Some (sz, lo, hi)"
  shows "fst (DecodeRune (s0 # t)) = RuneError
       \<or> (lo \<le> (s0 # t) ! 1 \<and> (s0 # t) ! 1 \<le> hi \<and>
           fst (DecodeRune (s0 # t)) =
             (if sz \<le> 2 then (s0 mod 32) * 64 + (s0 # t) ! 1 mod 64
              else if sz \<le> 3 then
                (s0 mod 16) * 4096 + ((s0 # t) ! 1 mod 64) * 64 + (s0 # t) ! 2 mod 64
              else (s0 mod 8) * 262144 + ((s0 # t) ! 1 mod 64) * 4096
                     + ((s0 # t) ! 2 mod 64) * 64 + (s0 # t) ! 3 mod 64))"
  using assms by (auto simp add: DecodeRune_def Let_def)

lemma mod_window:
  fixes a c q :: nat
  assumes "q * c \<le> a" and "a < q * c + c"
  shows "a mod c = a - q * c"
proof -
  obtain k where k: "a = q * c + k" using assms(1) le_Suc_ex by blast
  then have "k < c" using assms(2) by simp
  then show ?thesis using k by simp
qed

lemma DecodeRune_valid: "ValidRune (fst (DecodeRune s))"
proof (cases s)
  case Nil
  then show ?thesis by (simp add: DecodeRune_def ValidRune_def RuneError_def)
next
  case (Cons s0 t)
  show ?thesis
  proof (cases "s0 < 0x80")
    case True
    then show ?thesis by (simp add: Cons DecodeRune_def ValidRune_def)
  next
    case high: False
    show ?thesis
    proof (cases "first s0")
      case None
      then show ?thesis using high by (simp add: Cons DecodeRune_def ValidRune_def RuneError_def)
    next
      case (Some x)
      obtain sz lo hi where x: "first s0 = Some (sz, lo, hi)"
        using Some by (cases x) auto
      define s1 where "s1 = (s0 # t) ! 1"
      define m1 where "m1 = s1 mod 64"
      define m2 where "m2 = (s0 # t) ! 2 mod 64"
      define m3 where "m3 = (s0 # t) ! 3 mod 64"
      have m: "m1 < 64" "m2 < 64" "m3 < 64" by (simp_all add: m1_def m2_def m3_def)
      from DecodeRune_shapes [OF high x, of t]
      consider "fst (DecodeRune (s0 # t)) = RuneError"
        | "lo \<le> s1" "s1 \<le> hi"
          "fst (DecodeRune (s0 # t)) =
             (if sz \<le> 2 then (s0 mod 32) * 64 + m1
              else if sz \<le> 3 then (s0 mod 16) * 4096 + m1 * 64 + m2
              else (s0 mod 8) * 262144 + m1 * 4096 + m2 * 64 + m3)"
        unfolding s1_def m1_def m2_def m3_def by blast
      then show ?thesis
      proof cases
        case 1
        then show ?thesis by (simp add: Cons ValidRune_def RuneError_def)
      next
        case 2
        define r where "r = fst (DecodeRune (s0 # t))"
        have "ValidRune r"
          using first_cases [OF x]
        proof (elim disjE conjE)
          assume a: "sz = 2" "0xC2 \<le> s0" "s0 \<le> 0xDF"
          have "s0 mod 32 = s0 - 6 * 32" using a by (intro mod_window) simp_all
          then have "r = (s0 - 192) * 64 + m1" using 2(3) a(1) by (simp add: r_def)
          then show ?thesis unfolding ValidRune_def using a(2,3) m by linarith
        next
          assume a: "sz = 3" "s0 = 0xE0"
          then have "r = m1 * 64 + m2" using 2(3) by (simp add: r_def)
          then show ?thesis unfolding ValidRune_def using m by linarith
        next
          assume a: "sz = 3" "0xE1 \<le> s0" "s0 \<le> 0xEF" "s0 \<noteq> 0xED"
          have "s0 mod 16 = s0 - 14 * 16" using a by (intro mod_window) simp_all
          then have "r = (s0 - 224) * 4096 + m1 * 64 + m2" using 2(3) a(1) by (simp add: r_def)
          then show ?thesis unfolding ValidRune_def using a(2,3,4) m by linarith
        next
          assume a: "sz = 3" "s0 = 0xED" "lo = 0x80" "hi = 0x9F"
          have "s1 mod 64 = s1 - 2 * 64" using a 2(1,2) by (intro mod_window) simp_all
          then have "m1 < 32" using a 2(1,2) by (simp add: m1_def)
          moreover have "r = 13 * 4096 + m1 * 64 + m2" using 2(3) a(1,2) by (simp add: r_def)
          ultimately show ?thesis unfolding ValidRune_def using m by linarith
        next
          assume a: "sz = 4" "s0 = 0xF0" "lo = 0x90" "hi = 0xBF"
          have "s1 mod 64 = s1 - 2 * 64" using a 2(1,2) by (intro mod_window) simp_all
          then have "16 \<le> m1" using a 2(1,2) by (simp add: m1_def)
          moreover have "r = m1 * 4096 + m2 * 64 + m3" using 2(3) a(1,2) by (simp add: r_def)
          ultimately show ?thesis unfolding ValidRune_def using m by linarith
        next
          assume a: "sz = 4" "0xF1 \<le> s0" "s0 \<le> 0xF3"
          have "s0 mod 8 = s0 - 30 * 8" using a by (intro mod_window) simp_all
          then have "r = (s0 - 240) * 262144 + m1 * 4096 + m2 * 64 + m3"
            using 2(3) a(1) by (simp add: r_def)
          then show ?thesis unfolding ValidRune_def using a(2,3) m by linarith
        next
          assume a: "sz = 4" "s0 = 0xF4" "lo = 0x80" "hi = 0x8F"
          have "s1 mod 64 = s1 - 2 * 64" using a 2(1,2) by (intro mod_window) simp_all
          then have "m1 < 16" using a 2(1,2) by (simp add: m1_def)
          moreover have "r = 4 * 262144 + m1 * 4096 + m2 * 64 + m3"
            using 2(3) a(1,2) by (simp add: r_def)
          ultimately show ?thesis unfolding ValidRune_def using m by linarith
        qed
        then show ?thesis by (simp add: r_def Cons)
      qed
    qed
  qed
qed

lemma mod_offset:
  fixes k c q :: nat
  assumes "k < c"
  shows "(q * c + k) mod c = k"
  using assms by simp

lemma decode_2:
  assumes "2 \<le> a" and "a < 32" and "b < 64"
  shows "DecodeRune ((0xC0 + a) # (0x80 + b) # rest) = (a * 64 + b, 2)"
proof -
  have f: "first (0xC0 + a) = Some (2, 0x80, 0xBF)"
    using assms by (simp add: first_def)
  have m0: "(0xC0 + a) mod 32 = a" using mod_offset [of a 32 6] assms by simp
  have m1: "(0x80 + b) mod 64 = b" using mod_offset [of b 64 2] assms by simp
  have "DecodeRune ((0xC0 + a) # (0x80 + b) # rest)
          = (((0xC0 + a) mod 32) * 64 + (0x80 + b) mod 64, 2)"
    using assms by (intro DecodeRune_2 [OF _ f]) simp_all
  then show ?thesis by (simp only: m0 m1)
qed

lemma decode_3:
  assumes "a < 16" and "b < 64" and "c < 64"
    and "a = 0 \<Longrightarrow> 32 \<le> b" and "a = 13 \<Longrightarrow> b < 32"
  shows "DecodeRune ((0xE0 + a) # (0x80 + b) # (0x80 + c) # rest) = (a * 4096 + b * 64 + c, 3)"
proof -
  obtain lo hi where f: "first (0xE0 + a) = Some (3, lo, hi)"
    and lo: "lo \<le> 0x80 + b" and hi: "0x80 + b \<le> hi"
  proof (cases "a = 0 \<or> a = 13")
    case True
    then show ?thesis using assms that by (auto simp add: first_def)
  next
    case False
    then have "first (0xE0 + a) = Some (3, 0x80, 0xBF)"
      using assms(1) by (simp add: first_def)
    then show ?thesis using assms(2) that by simp
  qed
  have m0: "(0xE0 + a) mod 16 = a" using mod_offset [of a 16 14] assms by simp
  have m1: "(0x80 + b) mod 64 = b" using mod_offset [of b 64 2] assms by simp
  have m2: "(0x80 + c) mod 64 = c" using mod_offset [of c 64 2] assms by simp
  have "DecodeRune ((0xE0 + a) # (0x80 + b) # (0x80 + c) # rest)
          = (((0xE0 + a) mod 16) * 4096 + ((0x80 + b) mod 64) * 64 + (0x80 + c) mod 64, 3)"
    using assms(3) by (intro DecodeRune_3 [OF _ f lo hi]) simp_all
  then show ?thesis by (simp only: m0 m1 m2)
qed

lemma decode_4:
  assumes "a < 5" and "b < 64" and "c < 64" and "d < 64"
    and "a = 0 \<Longrightarrow> 16 \<le> b" and "a = 4 \<Longrightarrow> b < 16"
  shows "DecodeRune ((0xF0 + a) # (0x80 + b) # (0x80 + c) # (0x80 + d) # rest)
           = (a * 262144 + b * 4096 + c * 64 + d, 4)"
proof -
  obtain lo hi where f: "first (0xF0 + a) = Some (4, lo, hi)"
    and lo: "lo \<le> 0x80 + b" and hi: "0x80 + b \<le> hi"
  proof (cases "a = 0 \<or> a = 4")
    case True
    then show ?thesis using assms that by (auto simp add: first_def)
  next
    case False
    then have "first (0xF0 + a) = Some (4, 0x80, 0xBF)"
      using assms(1) by (simp add: first_def)
    then show ?thesis using assms(2) that by simp
  qed
  have m0: "(0xF0 + a) mod 8 = a" using mod_offset [of a 8 30] assms by simp
  have m1: "(0x80 + b) mod 64 = b" using mod_offset [of b 64 2] assms by simp
  have m2: "(0x80 + c) mod 64 = c" using mod_offset [of c 64 2] assms by simp
  have m3: "(0x80 + d) mod 64 = d" using mod_offset [of d 64 2] assms by simp
  have "DecodeRune ((0xF0 + a) # (0x80 + b) # (0x80 + c) # (0x80 + d) # rest)
          = (((0xF0 + a) mod 8) * 262144 + ((0x80 + b) mod 64) * 4096
               + ((0x80 + c) mod 64) * 64 + (0x80 + d) mod 64, 4)"
    using assms(3,4) by (intro DecodeRune_4 [OF _ f lo hi]) simp_all
  then show ?thesis by (simp only: m0 m1 m2 m3)
qed

lemma DecodeRune_EncodeRune:
  assumes "ValidRune r"
  shows "DecodeRune (EncodeRune r @ rest) = (r, length (EncodeRune r))"
proof -
  define q where "q = r div 64"
  define d where "d = r mod 64"
  define p where "p = q div 64"
  define c where "c = q mod 64"
  define a where "a = p div 64"
  define b where "b = p mod 64"
  have r: "r = q * 64 + d" and d: "d < 64" by (simp_all add: q_def d_def)
  have q: "q = p * 64 + c" and c: "c < 64" by (simp_all add: p_def c_def)
  have p: "p = a * 64 + b" and b: "b < 64" by (simp_all add: a_def b_def)
  have p_div: "r div 4096 = p"
    using div_mult2_eq [of r 64 64] by (simp add: p_def q_def)
  have a_div: "r div 262144 = a"
    using div_mult2_eq [of r 4096 64] by (simp add: p_div a_def)
  have c_eq: "(r div 64) mod 64 = c" by (simp add: c_def q_def)
  have b_eq: "(r div 4096) mod 64 = b" by (simp add: p_div b_def)
  consider "r \<le> 0x7F" | "0x7F < r" "r \<le> 0x7FF" | "0x7FF < r" "r \<le> 0xFFFF" | "0xFFFF < r"
    by linarith
  then show ?thesis
  proof cases
    case 1
    then show ?thesis by (simp add: EncodeRune_def DecodeRune_def)
  next
    case 2
    then have e: "EncodeRune r = [0xC0 + q, 0x80 + d]"
      by (simp add: EncodeRune_def q_def d_def)
    have "2 \<le> q" "q < 32" using 2 r d by linarith+
    then have "DecodeRune ((0xC0 + q) # (0x80 + d) # rest) = (q * 64 + d, 2)"
      using d by (intro decode_2)
    then show ?thesis unfolding e using r by simp
  next
    case 3
    have v: "r < 0xD800 \<or> 0xDFFF < r" using assms by (auto simp add: ValidRune_def)
    have e: "EncodeRune r = [0xE0 + p, 0x80 + c, 0x80 + d]"
      using 3 v by (auto simp add: EncodeRune_def p_div c_eq d_def)
    have "p < 16" using 3 r q d c by linarith
    moreover have "p = 0 \<Longrightarrow> 32 \<le> c" using 3 r q d by linarith
    moreover have "p = 13 \<Longrightarrow> c < 32" using v 3 r q d c by linarith
    ultimately have "DecodeRune ((0xE0 + p) # (0x80 + c) # (0x80 + d) # rest)
        = (p * 4096 + c * 64 + d, 3)"
      using c d by (intro decode_3)
    moreover have "p * 4096 + c * 64 + d = r" using r q by simp
    ultimately show ?thesis unfolding e by simp
  next
    case 4
    have v: "r \<le> 0x10FFFF" using assms 4 by (auto simp add: ValidRune_def)
    have e: "EncodeRune r = [0xF0 + a, 0x80 + b, 0x80 + c, 0x80 + d]"
      using 4 v by (auto simp add: EncodeRune_def a_div b_eq c_eq d_def)
    have "a < 5" using v r q p d c b by linarith
    moreover have "a = 0 \<Longrightarrow> 16 \<le> b" using 4 r q p d c by linarith
    moreover have "a = 4 \<Longrightarrow> b < 16" using v r q p d c by linarith
    ultimately have "DecodeRune ((0xF0 + a) # (0x80 + b) # (0x80 + c) # (0x80 + d) # rest)
        = (a * 262144 + b * 4096 + c * 64 + d, 4)"
      using b c d by (intro decode_4)
    moreover have "a * 262144 + b * 4096 + c * 64 + d = r" using r q p by simp
    ultimately show ?thesis unfolding e by simp
  qed
qed

lemma runes_EncodeRune:
  assumes "ValidRune r"
  shows "runes (EncodeRune r @ rest) = r # runes rest"
proof -
  obtain x xs where e: "EncodeRune r = x # xs"
    using EncodeRune_not_Nil [of r] by (cases "EncodeRune r") auto
  have "DecodeRune (x # xs @ rest) = (r, length (x # xs))"
    using DecodeRune_EncodeRune [OF assms, of rest] by (simp add: e)
  then show ?thesis by (simp add: e)
qed

lemma runes_concat_EncodeRune:
  assumes "\<forall>r \<in> set rs. ValidRune r"
  shows "runes (concat (map EncodeRune rs)) = rs"
  using assms by (induction rs) (simp_all add: runes_EncodeRune)

lemma runes_valid: "\<forall>r \<in> set (runes bs). ValidRune r"
proof (induction bs rule: runes.induct)
  case 1
  show ?case by simp
next
  case (2 b bs)
  obtain r w where d: "DecodeRune (b # bs) = (r, w)" by (cases "DecodeRune (b # bs)")
  have "ValidRune r" using DecodeRune_valid [of "b # bs"] by (simp add: d)
  then show ?case using 2 [OF d [symmetric] refl] by (simp add: d)
qed

lemma runes_ascii:
  assumes "\<forall>b \<in> set bs. b < 0x80"
  shows "runes bs = bs"
  using assms by (induction bs) (simp_all add: DecodeRune_1)

section \<open>Properties of strings.ToUpper\<close>

lemma upper_byte_unicode: "char_of (unicode_ToUpper tab (of_char c)) = upper_byte c"
  if "(of_char c :: nat) < 0x80"
  using that by (simp add: unicode_ToUpper_def upper_byte_def Let_def)

lemma strings_Map_ascii:
  assumes "\<forall>b \<in> set bs. b < 0x80"
  shows "strings_Map (unicode_ToUpper tab) bs = map (unicode_ToUpper tab) bs"
proof -
  have "EncodeRune (unicode_ToUpper tab b) = [unicode_ToUpper tab b]" if "b < 0x80" for b
    using that by (auto simp add: EncodeRune_def unicode_ToUpper_def)
  then have "concat (map (\<lambda>c. EncodeRune (unicode_ToUpper tab c)) bs) = map (unicode_ToUpper tab) bs"
    using assms by (induction bs) simp_all
  then show ?thesis using runes_ascii [OF assms] by (simp add: strings_Map_def)
qed

lemma ToUpper_runes:
  "ToUpper tab s = map char_of (strings_Map (unicode_ToUpper tab) (map of_char s))"
proof (cases "list_all (\<lambda>c. (of_char c :: nat) < 0x80) s")
  case True
  then have a: "\<forall>b \<in> set (map of_char s). b < (0x80 :: nat)"
    by (simp add: list_all_iff)
  have "map char_of (map (unicode_ToUpper tab) (map of_char s)) = map upper_byte s"
    using True by (induction s) (simp_all add: upper_byte_unicode)
  then show ?thesis using True strings_Map_ascii [OF a, of tab] by (simp add: ToUpper_def)
next
  case False
  then show ?thesis by (simp add: ToUpper_def)
qed

lemma strings_Map_bytes: "b \<in> set (strings_Map mapping s) \<Longrightarrow> b < 256"
  by (auto simp add: strings_Map_def dest: EncodeRune_bytes)

lemma of_char_char_of_bytes:
  assumes "\<forall>b \<in> set bs. b < (256 :: nat)"
  shows "map of_char (map char_of bs :: string) = bs"
  using assms by (induction bs) simp_all

lemma ToUpper_idem:
  assumes "\<forall>r. ValidRune r \<longrightarrow> ValidRune (unicode_ToUpper tab r)"
    and "\<forall>r. ValidRune r \<longrightarrow>
           unicode_ToUpper tab (unicode_ToUpper tab r) = unicode_ToUpper tab r"
  shows "ToUpper tab (ToUpper tab s) = ToUpper tab s"
proof -
  define rs where "rs = runes (map of_char s)"
  define us where "us = map (unicode_ToUpper tab) rs"
  have rs: "\<forall>r \<in> set rs. ValidRune r" unfolding rs_def by (rule runes_valid)
  then have us: "\<forall>r \<in> set us. ValidRune r" using assms(1) by (simp add: us_def)
  have once: "strings_Map (unicode_ToUpper tab) (map of_char s) = concat (map EncodeRune us)"
    by (simp add: strings_Map_def us_def rs_def comp_def)
  have bytes: "map of_char (ToUpper tab s) = concat (map EncodeRune us)"
    using of_char_char_of_bytes [of "strings_Map (unicode_ToUpper tab) (map of_char s)"]
      strings_Map_bytes [of _ "unicode_ToUpper tab" "map of_char s"]
    by (simp add: ToUpper_runes once)
  have e: "strings_Map (unicode_ToUpper tab) bs
      = concat (map EncodeRune (map (unicode_ToUpper tab) (runes bs)))" for bs
    by (simp add: strings_Map_def comp_def)
  have r: "runes (concat (map EncodeRune us)) = us" using us by (rule runes_concat_EncodeRune)
  have u: "map (unicode_ToUpper tab) us = us"
    using rs assms(2) by (simp add: us_def)
  have "strings_Map (unicode_ToUpper tab) (concat (map EncodeRune us))
      = concat (map EncodeRune us)"
    by (simp only: e r u)
  then show ?thesis
    using ToUpper_runes [of tab "ToUpper tab s"] ToUpper_runes [of tab s] bytes once by simp
qed

lemma ToUpper_ascii_no_lower:
  assumes "list_all (\<lambda>c. (of_char c :: nat) < 0x80) s"
  shows "list_all (\<lambda>c. \<not> (97 \<le> (of_char c :: nat) \<and> (of_char c :: nat) \<le> 122)) (ToUpper tab s)"
proof -
  have "\<not> (97 \<le> (of_char (upper_byte c) :: nat) \<and> (of_char (upper_byte c) :: nat) \<le> 122)" for c
  proof (cases "97 \<le> (of_char c :: nat) \<and> (of_char c :: nat) \<le> 122")
    case True
    define d where "d = (of_char c :: nat) - 32"
    have d: "d < 97" using True unfolding d_def by linarith
    have "upper_byte c = char_of d" using True by (simp add: upper_byte_def Let_def d_def)
    moreover have "(of_char (char_of d :: char) :: nat) = d" using d by simp
    ultimately show ?thesis using d by simp
  next
    case False
    then have "upper_byte c = c" by (auto simp add: upper_byte_def Let_def)
    then show ?thesis using False by simp
  qed
  then show ?thesis using assms by (simp add: ToUpper_def list_all_iff)
qed

section \<open>Properties of twelvedata.Quote\<close>

lemmas char_defs = char_of_def bit_Suc_0_iff

lemmas utf8_defs =
  ToUpper_def upper_byte_def strings_Map_def unicode_ToUpper_def DecodeRune_def first_def
  EncodeRune_def RuneError_def

lemma Quote_empty_price:
  assumes "http_Get n (twelvedataURL (ToUpper (upperCase n) symbol) apikey) = Inr resp"
    and "io_ReadAll n resp = Inr body"
    and "json_Unmarshal n body = Inr data"
    and "Price data = []"
  shows "Quote n symbol apikey = (0, None)"
  using assms by (simp add: Quote_def)

text \<open>
  C5. \<open>Quote\<close> is to return a non-nil error when the body parses as JSON and the price
  is missing or empty. On the bodies \<open>{}\<close> and \<open>{"price":""}\<close> it returns the price
  \<open>0\<close> with a nil error, the same pair as for the successful quote \<open>{"price":"0"}\<close>.
\<close>

theorem Quote_missing_price_nil_error:
  "Quote (stub_net ''{}'') ''AAA'' ''key'' = (0, None)
   \<and> Quote (stub_net ''{\"price\":\"\"}'') ''AAA'' ''key'' = (0, None)
   \<and> Quote (stub_net ''{\"price\":\"0\"}'') ''AAA'' ''key'' = (0, None)"
  by (simp add: Quote_def stub_net_def)

text \<open>
  C9. \<open>Quote\<close> puts its symbol into upper case before it builds the request. Let the
  upper-case mapping of the Unicode tables send code points to code points and leave
  the capitals it produces unchanged. Then, for every symbol and key and whatever the
  network answers, \<open>Quote\<close> on a symbol and on its upper-case form are the same
  call. A network that fails every request with the requested URL as its message shows
  the URL requested: it carries the upper-case form of the symbol, \<open>AAPL\<close> for
  \<open>aapl\<close>; and the upper-case form of an ASCII symbol has no letter from \<open>a\<close> to
  \<open>z\<close>.
\<close>

theorem Quote_uppercases_symbol:
  assumes "\<forall>r. ValidRune r \<longrightarrow> ValidRune (unicode_ToUpper (upperCase n) r)"
    and "\<forall>r. ValidRune r \<longrightarrow>
           unicode_ToUpper (upperCase n) (unicode_ToUpper (upperCase n) r)
             = unicode_ToUpper (upperCase n) r"
  shows "Quote n s k = Quote n (ToUpper (upperCase n) s) k
   \<and> Quote (n\<lparr>http_Get := (\<lambda>url. Inl (Error url))\<rparr>) s k
       = (0, Some (Error (twelvedataURL (ToUpper (upperCase n) s) k)))
   \<and> Quote (n\<lparr>http_Get := (\<lambda>url. Inl (Error url))\<rparr>) ''aapl'' k
       = (0, Some (Error (''https://api.twelvedata.com/price?symbol=AAPL&apikey='' @ k)))
   \<and> (list_all (\<lambda>c. (of_char c :: nat) < 0x80) s \<longrightarrow>
        list_all (\<lambda>c. \<not> (97 \<le> (of_char c :: nat) \<and> (of_char c :: nat) \<le> 122))
          (ToUpper (upperCase n) s))"
proof -
  have idem: "ToUpper (upperCase n) (ToUpper (upperCase n) s) = ToUpper (upperCase n) s"
    using assms by (rule ToUpper_idem)
  have same: "Quote n s k = Quote n (ToUpper (upperCase n) s) k"
    by (simp add: Quote_def idem)
  have url: "Quote (n\<lparr>http_Get := (\<lambda>url. Inl (Error url))\<rparr>) s k
       = (0, Some (Error (twelvedataURL (ToUpper (upperCase n) s) k)))"
    by (simp add: Quote_def)
  have "ToUpper (upperCase n) ''aapl'' = ''AAPL''"
    by (simp add: ToUpper_def upper_byte_def char_defs)
  then have aapl: "Quote (n\<lparr>http_Get := (\<lambda>url. Inl (Error url))\<rparr>) ''aapl'' k
       = (0, Some (Error (''https://api.twelvedata.com/price?symbol=AAPL&apikey='' @ k)))"
    by (simp add: Quote_def twelvedataURL_def)
  from same url aapl ToUpper_ascii_no_lower [of s "upperCase n"] show ?thesis by blast
qed

theorem Quote_uppercases_symbol_witness:
  "Quote (stub_net ''{}'') [CHR ''a'', CHR 0xC3, CHR 0xA9] ''k''
     = Quote (stub_net ''{}'') [CHR ''A'', CHR 0xC3, CHR 0x89] ''k''
   \<and> ToUpper (upperCase (stub_net ''{}'')) [CHR ''a'', CHR 0xC3, CHR 0xA9]
     = [CHR ''A'', CHR 0xC3, CHR 0x89]
   \<and> Quote ((stub_net ''{}'')\<lparr>http_Get := (\<lambda>url. Inl (Error url))\<rparr>) ''aapl'' ''k''
     = (0, Some (Error ''https://api.twelvedata.com/price?symbol=AAPL&apikey=k''))
   \<and> list_all (\<lambda>c. (of_char c :: nat) < 0x80) ''aapl''
   \<and> ToUpper (upperCase (stub_net ''{}'')) ''aapl'' = ''AAPL''
   \<and> ToUpper (upperCase (stub_net ''{}'')) [CHR 0xFF] = [CHR 0xEF, CHR 0xBF, CHR 0xBD]"
proof -
  have v: "\<forall>r. ValidRune r \<longrightarrow> ValidRune (unicode_ToUpper (upperCase (stub_net ''{}'')) r)"
    by (auto simp add: unicode_ToUpper_def stub_net_def ValidRune_def)
  have i: "\<forall>r. ValidRune r \<longrightarrow>
      unicode_ToUpper (upperCase (stub_net ''{}''))
        (unicode_ToUpper (upperCase (stub_net ''{}'')) r)
      = unicode_ToUpper (upperCase (stub_net ''{}'')) r"
    by (auto simp add: unicode_ToUpper_def stub_net_def)
  have e: "ToUpper (upperCase (stub_net ''{}'')) [CHR ''a'', CHR 0xC3, CHR 0xA9]
     = [CHR ''A'', CHR 0xC3, CHR 0x89]"
    by (simp add: stub_net_def utf8_defs char_defs)
  have a: "ToUpper (upperCase (stub_net ''{}'')) ''aapl'' = ''AAPL''"
    by (simp add: ToUpper_def upper_byte_def char_defs)
  have f: "ToUpper (upperCase (stub_net ''{}'')) [CHR 0xFF] = [CHR 0xEF, CHR 0xBF, CHR 0xBD]"
    by (simp add: stub_net_def utf8_defs char_defs)
  show ?thesis
    using Quote_uppercases_symbol [OF v i, of "[CHR ''a'', CHR 0xC3, CHR 0xA9]" "''k''"]
      Quote_uppercases_symbol [OF v i, of "''aapl''" "''k''"] e a f
    by simp
qed

section \<open>What one pass of the loop changes\<close>

lemma cachedFetcher_frame:
  assumes "cachedFetcher env symbol st = (r, st')"
  shows "queryCount st' = queryCount st" "errorCount st' = errorCount st" "ch st' = ch st"
    "queryDuration st' = queryDuration st" "cache st' = cache st" "now st \<le> now st'"
  using assms
  by (auto simp add: cachedFetcher_def request_def split: if_splits prod.splits)

lemma Memoize_frame:
  assumes "Memoize symbol (cachedFetcher env symbol) st = (r, st')"
  shows "queryCount st' = queryCount st" "errorCount st' = errorCount st" "ch st' = ch st"
    "queryDuration st' = queryDuration st" "now st \<le> now st'"
  using assms
  by (auto simp add: Memoize_def split: option.splits prod.splits dest: cachedFetcher_frame)

lemma collect_symbol_queryCount:
  "queryCount (snd (collect_symbol env symbol st)) = queryCount st"
proof -
  obtain qret err cached st1
    where M: "Memoize symbol (cachedFetcher env symbol) st = ((qret, err, cached), st1)"
    by (metis surj_pair)
  show ?thesis
    using Memoize_frame(1) [OF M]
    by (simp add: collect_symbol_def M Let_def split: option.splits iface.splits sum.splits)
qed

lemma collect_symbol_errorCount:
  "errorCount (snd (collect_symbol env symbol st)) =
     errorCount st + (if fst (collect_symbol env symbol st) = Returned then 1 else 0)"
proof -
  obtain qret err cached st1
    where M: "Memoize symbol (cachedFetcher env symbol) st = ((qret, err, cached), st1)"
    by (metis surj_pair)
  show ?thesis
    using Memoize_frame(2) [OF M]
    by (simp add: collect_symbol_def M Let_def split: option.splits iface.splits sum.splits)
qed

lemma collect_symbol_ch:
  "length (ch (snd (collect_symbol env symbol st))) =
     length (ch st) + (if fst (collect_symbol env symbol st) = Completed then 1 else 0)"
proof -
  obtain qret err cached st1
    where M: "Memoize symbol (cachedFetcher env symbol) st = ((qret, err, cached), st1)"
    by (metis surj_pair)
  show ?thesis
    using Memoize_frame(3) [OF M]
    by (simp add: collect_symbol_def M Let_def split: option.splits iface.splits sum.splits)
qed

lemma collect_symbol_queryDuration:
  "queryDuration (snd (collect_symbol env symbol st)) =
     queryDuration st @ [now (snd (Memoize symbol (cachedFetcher env symbol) st)) - now st]"
proof -
  obtain qret err cached st1
    where M: "Memoize symbol (cachedFetcher env symbol) st = ((qret, err, cached), st1)"
    by (metis surj_pair)
  show ?thesis
    using Memoize_frame(4) [OF M]
    by (simp add: collect_symbol_def M Let_def split: option.splits iface.splits sum.splits)
qed

lemma range_symbols_queryCount:
  "queryCount (snd (range_symbols env syms st)) = queryCount st"
proof (induction syms arbitrary: st)
  case Nil
  show ?case by simp
next
  case (Cons symbol rest)
  obtain continue :: flow and st1 where C: "collect_symbol env symbol st = (continue, st1)"
    by (cases "collect_symbol env symbol st")
  have "queryCount st1 = queryCount st"
    using collect_symbol_queryCount [of env symbol st] by (simp add: C)
  then show ?case by (cases continue) (simp_all add: C Cons.IH)
qed

lemma range_symbols_errorCount:
  "errorCount st \<le> errorCount (snd (range_symbols env syms st))
   \<and> errorCount (snd (range_symbols env syms st)) \<le> errorCount st + 1"
proof (induction syms arbitrary: st)
  case Nil
  show ?case by simp
next
  case (Cons symbol rest)
  obtain continue :: flow and st1 where C: "collect_symbol env symbol st = (continue, st1)"
    by (cases "collect_symbol env symbol st")
  have "errorCount st1 = errorCount st + (if continue = Returned then 1 else 0)"
    using collect_symbol_errorCount [of env symbol st] by (simp add: C)
  then show ?case using Cons.IH [of st1] by (cases continue) (simp_all add: C)
qed

lemma range_symbols_balance:
  "length (queryDuration (snd (range_symbols env syms st))) + length (ch st) + errorCount st =
   length (queryDuration st) + length (ch (snd (range_symbols env syms st)))
     + errorCount (snd (range_symbols env syms st))
     + (if fst (range_symbols env syms st) = Panicked then 1 else 0)"
proof (induction syms arbitrary: st)
  case Nil
  show ?case by simp
next
  case (Cons symbol rest)
  obtain continue :: flow and st1 where C: "collect_symbol env symbol st = (continue, st1)"
    by (cases "collect_symbol env symbol st")
  have e: "errorCount st1 = errorCount st + (if continue = Returned then 1 else 0)"
    using collect_symbol_errorCount [of env symbol st] by (simp add: C)
  have c: "length (ch st1) = length (ch st) + (if continue = Completed then 1 else 0)"
    using collect_symbol_ch [of env symbol st] by (simp add: C)
  have d: "length (queryDuration st1) = length (queryDuration st) + 1"
    using collect_symbol_queryDuration [of env symbol st] by (simp add: C)
  show ?case using Cons.IH [of st1] e c d by (cases continue) (simp_all add: C)
qed

lemma range_symbols_ch_le:
  "length (ch (snd (range_symbols env syms st))) \<le> length (ch st) + length syms"
proof (induction syms arbitrary: st)
  case Nil
  show ?case by simp
next
  case (Cons symbol rest)
  obtain continue :: flow and st1 where C: "collect_symbol env symbol st = (continue, st1)"
    by (cases "collect_symbol env symbol st")
  have c: "length (ch st1) = length (ch st) + (if continue = Completed then 1 else 0)"
    using collect_symbol_ch [of env symbol st] by (simp add: C)
  show ?case using Cons.IH [of st1] c by (cases continue) (simp_all add: C)
qed

lemma collect_symbol_stop:
  assumes "fst (collect_symbol env symbol st) \<noteq> Completed"
  shows "range_symbols env (symbol # rest) st = collect_symbol env symbol st"
proof -
  obtain continue :: flow and st1 where C: "collect_symbol env symbol st = (continue, st1)"
    by (cases "collect_symbol env symbol st")
  show ?thesis using assms by (cases continue) (simp_all add: C)
qed

section \<open>Properties of newCollector\<close>

lemmas run_defs =
  collector_Collect_def collect_symbol_def Memoize_def Storage_Get_def Storage_Set_def
  cachedFetcher_def request_def start_state_def NewMemoizer_def MustNewConstMetric_def
  sample_def Let_def DecodeRune_def first_def RuneError_def

lemmas parse_defs = newCollector_def Query_def parsePair_def Cut_def ishex_def unhex_def

lemma Split_not_Nil: "Split s sep \<noteq> []"
  by (induction s) (auto split: list.splits)

lemma parsePair_nonempty:
  assumes "\<And>k vs. m k = Some vs \<Longrightarrow> vs \<noteq> []"
    and "parsePair m piece k = Some vs"
  shows "vs \<noteq> []"
  using assms
  by (auto simp add: parsePair_def split: if_splits prod.splits option.splits)

lemma foldl_parsePair_nonempty:
  assumes "\<And>k vs. m k = Some vs \<Longrightarrow> vs \<noteq> []"
    and "foldl parsePair m pieces k = Some vs"
  shows "vs \<noteq> []"
  using assms
proof (induction pieces arbitrary: m)
  case Nil
  then show ?case by simp
next
  case (Cons piece pieces)
  have "\<And>k vs. parsePair m piece k = Some vs \<Longrightarrow> vs \<noteq> []"
    using parsePair_nonempty Cons.prems(1) by blast
  then show ?case using Cons.IH [of "parsePair m piece"] Cons.prems(2) by simp
qed

lemma Query_nonempty: "Query u k = Some vs \<Longrightarrow> vs \<noteq> []"
  unfolding Query_def using foldl_parsePair_nonempty [of Map.empty] by fastforce

lemma foldl_Split_nonempty:
  "acc \<noteq> [] \<or> qvalues \<noteq> [] \<Longrightarrow> foldl (\<lambda>acc qvalue. acc @ Split qvalue sep) acc qvalues \<noteq> []"
  by (induction qvalues arbitrary: acc) (auto simp add: Split_not_Nil)

text \<open>
  C3, as the spec states it: a request carrying \<open>symbols=\<close> yields a collector with
  zero symbols and zero samples. The value of the parameter is the empty string, which
  \<open>strings.Split\<close> turns into one empty piece: the collector holds one symbol, the
  empty one, and with a provider that quotes it \<open>Collect\<close> sends one sample.
\<close>

theorem newCollector_empty_parameter_one_symbol:
  "newCollector \<lparr>RawQuery = ''symbols=''\<rparr> = Inr \<lparr>symbols = [[]]\<rparr>
   \<and> length (symbols \<lparr>symbols = [[]]\<rparr>) = 1
   \<and> map sample (ch (snd (collector_Collect quoting_env \<lparr>symbols = [[]]\<rparr> start_state))) = [([[], []], 0)]"
  by (simp add: parse_defs run_defs quoting_env_def stub_env_def stub_net_def Quote_def
      twelvedataURL_def ToUpper_def)

text \<open>
  C3, amended. \<open>newCollector\<close> fails, with the error \<open>missing symbols in query\<close>, if
  and only if the parsed query has no key \<open>symbols\<close>, and succeeds otherwise. A
  collector it returns never has zero symbols; for \<open>symbols=\<close> it holds exactly the
  empty symbol.
\<close>

theorem newCollector_fails_iff_absent:
  "(newCollector u = Inl (Error ''missing symbols in query'')) = (Query u ''symbols'' = None)
   \<and> ((\<exists>c. newCollector u = Inr c) = (Query u ''symbols'' \<noteq> None))
   \<and> (newCollector u = Inr c \<longrightarrow> symbols c \<noteq> [])
   \<and> newCollector \<lparr>RawQuery = ''symbols=''\<rparr> = Inr \<lparr>symbols = [[]]\<rparr>
   \<and> newCollector \<lparr>RawQuery = []\<rparr> = Inl (Error ''missing symbols in query'')"
proof -
  have absent: "(newCollector u = Inl (Error ''missing symbols in query'')) = (Query u ''symbols'' = None)"
    by (simp add: newCollector_def split: option.splits)
  have present: "(\<exists>c. newCollector u = Inr c) = (Query u ''symbols'' \<noteq> None)"
    by (auto simp add: newCollector_def split: option.splits)
  have some: "newCollector u = Inr c \<longrightarrow> symbols c \<noteq> []"
  proof
    assume r: "newCollector u = Inr c"
    then obtain qvalues where q: "Query u ''symbols'' = Some qvalues"
      by (auto simp add: newCollector_def split: option.splits)
    then have "qvalues \<noteq> []" by (rule Query_nonempty)
    then have "foldl (\<lambda>acc qvalue. acc @ Split qvalue CHR '','') [] qvalues \<noteq> []"
      by (simp add: foldl_Split_nonempty)
    with r q show "symbols c \<noteq> []" by (auto simp add: newCollector_def)
  qed
  have empty: "newCollector \<lparr>RawQuery = ''symbols=''\<rparr> = Inr \<lparr>symbols = [[]]\<rparr>"
    by (simp add: parse_defs)
  have none: "newCollector \<lparr>RawQuery = []\<rparr> = Inl (Error ''missing symbols in query'')"
    by (simp add: parse_defs)
  from absent present some empty none show ?thesis by blast
qed

theorem newCollector_fails_iff_absent_witness:
  "newCollector \<lparr>RawQuery = ''symbols=''\<rparr> = Inr \<lparr>symbols = [[]]\<rparr>
   \<and> Query \<lparr>RawQuery = ''symbols=''\<rparr> ''symbols'' = Some [[]]
   \<and> symbols \<lparr>symbols = [[]]\<rparr> \<noteq> []
   \<and> Query \<lparr>RawQuery = ''port=1''\<rparr> ''symbols'' = None
   \<and> newCollector \<lparr>RawQuery = ''port=1''\<rparr> = Inl (Error ''missing symbols in query'')"
  using newCollector_fails_iff_absent [of "\<lparr>RawQuery = ''symbols=''\<rparr>" "\<lparr>symbols = [[]]\<rparr>"]
    newCollector_fails_iff_absent [of "\<lparr>RawQuery = ''port=1''\<rparr>" "\<lparr>symbols = [[]]\<rparr>"]
  by (simp add: Query_def parsePair_def Cut_def)

section \<open>Properties of the fetcher and the cache\<close>

lemma cachedFetcher_no_key:
  assumes "flagEnableTwelvedata env" and "flagTwelvedataApiKey env = []"
  shows "cachedFetcher env symbol st = ((INil, None), st\<lparr> written := written st @ [EnvNotSet] \<rparr>)"
  using assms by (simp add: cachedFetcher_def)

lemma collect_symbol_no_key:
  assumes "flagEnableTwelvedata env" and "flagTwelvedataApiKey env = []"
    and "holds_no_price (cache st)"
  shows "fst (collect_symbol env symbol st) = Returned"
    and "ch (snd (collect_symbol env symbol st)) = ch st"
proof -
  have hit: "\<And>e. entries (cache st) symbol = Some e \<Longrightarrow> e_value e = INil"
    using assms(3) by (simp add: holds_no_price_def)
  show "fst (collect_symbol env symbol st) = Returned"
    using hit
    by (auto simp add: collect_symbol_def Memoize_def Storage_Get_def Let_def
        cachedFetcher_no_key [OF assms(1,2)] split: option.splits iface.splits sum.splits)
  show "ch (snd (collect_symbol env symbol st)) = ch st"
    using hit
    by (auto simp add: collect_symbol_def Memoize_def Storage_Get_def Let_def
        cachedFetcher_no_key [OF assms(1,2)] split: option.splits iface.splits sum.splits)
qed

lemma range_symbols_no_key:
  assumes "flagEnableTwelvedata env" and "flagTwelvedataApiKey env = []"
    and "holds_no_price (cache st)"
  shows "ch (snd (range_symbols env syms st)) = ch st"
    and "syms \<noteq> [] \<Longrightarrow> errorCount (snd (range_symbols env syms st)) = errorCount st + 1"
proof -
  show "ch (snd (range_symbols env syms st)) = ch st"
  proof (cases syms)
    case Nil
    then show ?thesis by simp
  next
    case (Cons symbol rest)
    then show ?thesis
      using collect_symbol_no_key [OF assms, of symbol]
      by (simp add: collect_symbol_stop del: range_symbols.simps)
  qed
  show "syms \<noteq> [] \<Longrightarrow> errorCount (snd (range_symbols env syms st)) = errorCount st + 1"
  proof (cases syms)
    case Nil
    assume "syms \<noteq> []"
    with Nil show ?thesis by simp
  next
    case (Cons symbol rest)
    then show ?thesis
      using collect_symbol_no_key(1) [OF assms, of symbol]
        collect_symbol_errorCount [of env symbol st]
      by (simp add: collect_symbol_stop del: range_symbols.simps)
  qed
qed

lemma collect_symbol_no_key_cache:
  assumes "flagEnableTwelvedata env" and "flagTwelvedataApiKey env = []"
    and "holds_no_price (cache st)"
  shows "holds_no_price (cache (snd (collect_symbol env symbol st)))"
  using assms(3)
  by (auto simp add: collect_symbol_def Memoize_def Storage_Get_def Storage_Set_def Let_def
      holds_no_price_def cachedFetcher_no_key [OF assms(1,2)] split: option.splits iface.splits sum.splits)

lemma Collect_no_key_cache:
  assumes "flagEnableTwelvedata env" and "flagTwelvedataApiKey env = []"
    and "holds_no_price (cache st)"
  shows "holds_no_price (cache (snd (collector_Collect env c st)))"
proof (cases "symbols c")
  case Nil
  then show ?thesis using assms(3) by (simp add: collector_Collect_def)
next
  case (Cons symbol rest)
  let ?st = "st\<lparr>queryCount := queryCount st + 1\<rparr>"
  have h: "holds_no_price (cache ?st)" using assms(3) by simp
  show ?thesis
    using collect_symbol_no_key(1) [OF assms(1,2) h, of symbol]
      collect_symbol_no_key_cache [OF assms(1,2) h, of symbol]
    by (simp add: collector_Collect_def Cons collect_symbol_stop del: range_symbols.simps)
qed

text \<open>
  C4, as the spec states it: with the credential unset every symbol resolves with an
  explicit error and the error counter goes up once per symbol. The fetcher returns
  \<open>nil\<close> with a \<open>nil\<close> error, and \<open>Collect\<close> on two symbols counts one error.
\<close>

theorem missing_key_nil_error_one_count:
  "fst (cachedFetcher nokey_env ''AAA'' start_state) = (INil, None)
   \<and> fst (Memoize ''AAA'' (cachedFetcher nokey_env ''AAA'') start_state) = (INil, None, False)
   \<and> length (symbols \<lparr>symbols = [''AAA'', ''BBB'']\<rparr>) = 2
   \<and> errorCount (snd (collector_Collect nokey_env \<lparr>symbols = [''AAA'', ''BBB'']\<rparr> start_state)) = 1"
  by (simp add: run_defs nokey_env_def stub_env_def)

text \<open>
  C4, amended. With the twelvedata provider selected and an empty API key, the fetcher
  of every symbol returns \<open>nil\<close> with a \<open>nil\<close> error and makes no request to the
  provider. \<open>Collect\<close>, on a cache that holds no price, sends no sample, and with at
  least one symbol it counts the failed \<open>float64\<close> assertion in the error counter.
\<close>

theorem missing_key_resolves_nil:
  assumes "flagEnableTwelvedata env" and "flagTwelvedataApiKey env = []"
  shows "fst (cachedFetcher env symbol st) = (INil, None)
    \<and> upstream (snd (cachedFetcher env symbol st)) = upstream st
    \<and> (holds_no_price (cache st) \<longrightarrow>
         ch (snd (collector_Collect env c st)) = ch st
         \<and> (symbols c \<noteq> [] \<longrightarrow> errorCount st < errorCount (snd (collector_Collect env c st))))"
proof -
  have "holds_no_price (cache (st\<lparr>queryCount := queryCount st + 1\<rparr>))"
    if "holds_no_price (cache st)"
    using that by simp
  then show ?thesis
    using range_symbols_no_key [OF assms, of "st\<lparr>queryCount := queryCount st + 1\<rparr>" "symbols c"]
    by (simp add: cachedFetcher_no_key [OF assms] collector_Collect_def)
qed

theorem missing_key_resolves_nil_witness:
  "flagEnableTwelvedata nokey_env \<and> flagTwelvedataApiKey nokey_env = []
   \<and> holds_no_price (cache (start_state :: real state))
   \<and> symbols \<lparr>symbols = [''AAA'', ''BBB'']\<rparr> \<noteq> []
   \<and> fst (cachedFetcher nokey_env ''AAA'' start_state) = (INil, None)
   \<and> ch (snd (collector_Collect nokey_env \<lparr>symbols = [''AAA'', ''BBB'']\<rparr> start_state)) = []
   \<and> 0 < errorCount (snd (collector_Collect nokey_env \<lparr>symbols = [''AAA'', ''BBB'']\<rparr> start_state))"
proof -
  have k: "flagEnableTwelvedata nokey_env" "flagTwelvedataApiKey nokey_env = []"
    by (simp_all add: nokey_env_def stub_env_def)
  have h: "holds_no_price (cache (start_state :: real state))"
    by (simp add: holds_no_price_def start_state_def NewMemoizer_def)
  show ?thesis
    using k h missing_key_resolves_nil [OF k, of "''AAA''" start_state "\<lparr>symbols = [''AAA'', ''BBB'']\<rparr>"]
    by (simp add: start_state_def)
qed

lemma Memoize_hit:
  assumes "entries (cache st) key = Some e" and "\<not> e_stamp e + freshness (cache st) < now st"
  shows "Memoize key fn st = ((e_value e, e_err e, True), st)"
  using assms by (simp add: Memoize_def Storage_Get_def)

lemma Memoize_stored:
  assumes "Memoize key (cachedFetcher env key) st = ((v, err, cached), st1)"
  shows "freshness (cache st1) = freshness (cache st)"
    and "retention (cache st1) = retention (cache st)"
    and "\<exists>e. entries (cache st1) key = Some e \<and> e_value e = v \<and> e_err e = err
           \<and> (if cached then \<not> e_stamp e + freshness (cache st) < now st else e_stamp e = now st1)"
proof -
  obtain r st' where F: "cachedFetcher env key st = (r, st')"
    by (cases "cachedFetcher env key st")
  have c: "cache st' = cache st" using cachedFetcher_frame(5) [OF F] .
  show "freshness (cache st1) = freshness (cache st)"
    using assms c
    by (auto simp add: Memoize_def Storage_Get_def Storage_Set_def F split: option.splits if_splits prod.splits)
  show "retention (cache st1) = retention (cache st)"
    using assms c
    by (auto simp add: Memoize_def Storage_Get_def Storage_Set_def F split: option.splits if_splits prod.splits)
  show "\<exists>e. entries (cache st1) key = Some e \<and> e_value e = v \<and> e_err e = err
           \<and> (if cached then \<not> e_stamp e + freshness (cache st) < now st else e_stamp e = now st1)"
    using assms c
    by (auto simp add: Memoize_def Storage_Get_def Storage_Set_def F split: option.splits if_splits prod.splits)
qed

lemma purge_keeps:
  assumes "entries m key = Some e" and "\<not> e_stamp e + retention m < t"
  shows "entries (purge t m) key = Some e"
    and "freshness (purge t m) = freshness m"
  using assms by (simp_all add: purge_def)

lemma purge_drops:
  assumes "entries m key = Some e" and "e_stamp e + retention m < t"
  shows "entries (purge t m) key = None"
  using assms by (simp add: purge_def)

text \<open>
  C6. The cache of the program has a freshness of ten minutes and a retention of
  twenty. When a resolution of a symbol has returned a price, a second resolution no
  later than ten minutes after the entry's time stamp returns the same price with the
  flag \<open>True\<close> and makes no request to the provider, also when the eviction has run
  in between; the entry of a fetch carries the time of the fetch; and an eviction later
  than twenty minutes after the time stamp removes the entry.
\<close>

theorem Memoize_again_within_freshness:
  assumes "freshness (cache st) = 10 * Minute" and "retention (cache st) = 20 * Minute"
    and "Memoize key (cachedFetcher env key) st = ((IFloat64 p, None, cached), st1)"
    and "entries (cache st1) key = Some e"
    and "t \<le> e_stamp e + 10 * Minute"
    and "tp \<le> t"
  shows "Memoize key (cachedFetcher env key) (st1\<lparr>now := t\<rparr>)
           = ((IFloat64 p, None, True), st1\<lparr>now := t\<rparr>)
     \<and> upstream (snd (Memoize key (cachedFetcher env key) (st1\<lparr>now := t\<rparr>))) = upstream st1
     \<and> Memoize key (cachedFetcher env key) (st1\<lparr>now := t, cache := purge tp (cache st1)\<rparr>)
           = ((IFloat64 p, None, True), st1\<lparr>now := t, cache := purge tp (cache st1)\<rparr>)
     \<and> (\<not> cached \<longrightarrow> e_stamp e = now st1)
     \<and> (e_stamp e + 20 * Minute < t' \<longrightarrow> entries (purge t' (cache st1)) key = None)"
proof -
  have f: "freshness (cache st1) = 10 * Minute" and r: "retention (cache st1) = 20 * Minute"
    using Memoize_stored(1,2) [OF assms(3)] assms(1,2) by simp_all
  have e: "e_value e = IFloat64 p" "e_err e = None" "\<not> cached \<longrightarrow> e_stamp e = now st1"
    using Memoize_stored(3) [OF assms(3)] assms(4) by (auto split: if_splits)
  have fresh: "\<not> e_stamp e + freshness (cache st1) < t"
    using assms(5) f by simp
  have kept: "\<not> e_stamp e + retention (cache st1) < tp"
    using assms(5,6) r by (simp add: Minute_def)
  have again: "Memoize key (cachedFetcher env key) (st1\<lparr>now := t\<rparr>)
           = ((IFloat64 p, None, True), st1\<lparr>now := t\<rparr>)"
    using Memoize_hit [of "st1\<lparr>now := t\<rparr>" key e] assms(4) fresh e by simp
  have purged: "Memoize key (cachedFetcher env key) (st1\<lparr>now := t, cache := purge tp (cache st1)\<rparr>)
           = ((IFloat64 p, None, True), st1\<lparr>now := t, cache := purge tp (cache st1)\<rparr>)"
    using Memoize_hit [of "st1\<lparr>now := t, cache := purge tp (cache st1)\<rparr>" key e]
      purge_keeps [OF assms(4) kept] fresh e by simp
  have gone: "e_stamp e + 20 * Minute < t' \<longrightarrow> entries (purge t' (cache st1)) key = None"
    using purge_drops [OF assms(4), of t'] r by simp
  from again purged e(3) gone show ?thesis by simp
qed

theorem Memoize_again_within_freshness_witness:
  "freshness (cache (start_state :: real state)) = 10 * Minute
   \<and> retention (cache (start_state :: real state)) = 20 * Minute
   \<and> fst (Memoize ''AAA'' (cachedFetcher stub_env ''AAA'') start_state) = (IFloat64 10, None, False)
   \<and> fst (Memoize ''AAA'' (cachedFetcher stub_env ''AAA'')
            ((snd (Memoize ''AAA'' (cachedFetcher stub_env ''AAA'') start_state))\<lparr>now := 9 * Minute\<rparr>))
       = (IFloat64 10, None, True)
   \<and> upstream (snd (Memoize ''AAA'' (cachedFetcher stub_env ''AAA'')
            ((snd (Memoize ''AAA'' (cachedFetcher stub_env ''AAA'') start_state))\<lparr>now := 9 * Minute\<rparr>)))
       = [''AAA'']
   \<and> entries (purge (21 * Minute)
        (cache (snd (Memoize ''AAA'' (cachedFetcher stub_env ''AAA'') start_state)))) ''AAA'' = None"
proof -
  define st1 :: "real state" where
    "st1 = snd (Memoize ''AAA'' (cachedFetcher stub_env ''AAA'') start_state)"
  define e :: "real entry" where
    "e = \<lparr> e_value = IFloat64 10, e_err = None, e_stamp = 1000000 \<rparr>"
  have c: "freshness (cache (start_state :: real state)) = 10 * Minute"
    "retention (cache (start_state :: real state)) = 20 * Minute"
    by (simp_all add: start_state_def NewMemoizer_def)
  have first: "Memoize ''AAA'' (cachedFetcher stub_env ''AAA'') start_state
                 = ((IFloat64 10, None, False), st1)"
    unfolding st1_def by (simp add: run_defs stub_env_def stub_Quote_def)
  have entry: "entries (cache st1) ''AAA'' = Some e"
    unfolding st1_def e_def by (simp add: run_defs stub_env_def stub_Quote_def)
  have window: "9 * Minute \<le> e_stamp e + 10 * Minute" "9 * Minute \<le> 9 * Minute"
    by (simp_all add: e_def Minute_def)
  have up: "upstream st1 = [''AAA'']"
    unfolding st1_def by (simp add: run_defs stub_env_def stub_Quote_def)
  have late: "e_stamp e + 20 * Minute < 21 * Minute"
    by (simp add: e_def Minute_def)
  show ?thesis
    using Memoize_again_within_freshness [OF c first entry window, of "21 * Minute"] c first up late
    unfolding st1_def [symmetric] by simp
qed

lemma collect_symbol_cache_durations:
  "freshness (cache (snd (collect_symbol env symbol st))) = freshness (cache st)
   \<and> retention (cache (snd (collect_symbol env symbol st))) = retention (cache st)"
proof -
  obtain qret err cached st1
    where M: "Memoize symbol (cachedFetcher env symbol) st = ((qret, err, cached), st1)"
    by (metis surj_pair)
  show ?thesis
    using Memoize_stored(1,2) [OF M]
    by (simp add: collect_symbol_def M Let_def split: option.splits iface.splits sum.splits)
qed

lemma range_symbols_cache_durations:
  "freshness (cache (snd (range_symbols env syms st))) = freshness (cache st)
   \<and> retention (cache (snd (range_symbols env syms st))) = retention (cache st)"
proof (induction syms arbitrary: st)
  case Nil
  show ?case by simp
next
  case (Cons symbol rest)
  obtain continue :: flow and st1 where C: "collect_symbol env symbol st = (continue, st1)"
    by (cases "collect_symbol env symbol st")
  show ?case
    using Cons.IH [of st1] collect_symbol_cache_durations [of env symbol st]
    by (cases continue) (simp_all add: C)
qed

lemma Collect_cache_durations:
  "freshness (cache (snd (collector_Collect env c st))) = freshness (cache st)
   \<and> retention (cache (snd (collector_Collect env c st))) = retention (cache st)"
  using range_symbols_cache_durations [of env "symbols c" "st\<lparr>queryCount := queryCount st + 1\<rparr>"]
  by (simp add: collector_Collect_def)

section \<open>Properties of Collect\<close>

text \<open>
  C1. One symbol's failure is not to keep the later symbols from being processed: for
  the request \<open>symbols=AAA,BBB&symbols=CCC\<close> and the provider quoting \<open>AAA\<close> at 10,
  failing on \<open>BBB\<close> and quoting \<open>CCC\<close> at 30, two samples are expected. The code
  leaves \<open>Collect\<close> at \<open>BBB\<close>: it sends the one sample of \<open>AAA\<close>, counts one
  error, and never asks the provider for \<open>CCC\<close>.
\<close>

theorem Collect_returns_at_failed_symbol:
  "newCollector \<lparr>RawQuery = ''symbols=AAA,BBB&symbols=CCC''\<rparr>
     = Inr \<lparr>symbols = [''AAA'', ''BBB'', ''CCC'']\<rparr>
   \<and> map sample (ch (snd (collector_Collect stub_env \<lparr>symbols = [''AAA'', ''BBB'', ''CCC'']\<rparr> start_state)))
     = [([''AAA'', ''AAA''], 10)]
   \<and> fst (collector_Collect stub_env \<lparr>symbols = [''AAA'', ''BBB'', ''CCC'']\<rparr> start_state) = Returned
   \<and> errorCount (snd (collector_Collect stub_env \<lparr>symbols = [''AAA'', ''BBB'', ''CCC'']\<rparr> start_state)) = 1
   \<and> upstream (snd (collector_Collect stub_env \<lparr>symbols = [''AAA'', ''BBB'', ''CCC'']\<rparr> start_state))
     = [''AAA'', ''BBB'']"
  by (simp add: parse_defs run_defs stub_env_def stub_Quote_def)

text \<open>
  C2. A sample for a symbol is to be sent if and only if the resolution of the symbol
  succeeds with a numeric price. For the symbols \<open>BBB\<close>, \<open>CCC\<close> the resolution of
  \<open>CCC\<close> succeeds with the price 30, and \<open>Collect\<close> sends no sample at all.
\<close>

theorem Collect_omits_resolvable_symbol:
  "fst (Memoize ''CCC'' (cachedFetcher stub_env ''CCC'') start_state) = (IFloat64 30, None, False)
   \<and> ch (snd (collector_Collect stub_env \<lparr>symbols = [''BBB'', ''CCC'']\<rparr> start_state)) = []"
  by (simp add: run_defs stub_env_def stub_Quote_def)

text \<open>
  C7. Every call of \<open>Collect\<close> adds exactly one to the query counter, whatever the
  symbols and their outcomes; a pass of the loop leaves the counter alone.
\<close>

theorem Collect_counts_one_query:
  "queryCount (snd (collector_Collect env c st)) = queryCount st + 1
   \<and> queryCount (snd (collect_symbol env symbol st)) = queryCount st"
  by (simp add: collector_Collect_def range_symbols_queryCount collect_symbol_queryCount)

theorem Collect_counts_one_query_witness:
  "queryCount (snd (collector_Collect stub_env \<lparr>symbols = []\<rparr> start_state)) = 1
   \<and> queryCount (snd (collector_Collect stub_env \<lparr>symbols = [''AAA'', ''BBB'', ''CCC'']\<rparr> start_state)) = 1"
  using Collect_counts_one_query [of stub_env "\<lparr>symbols = []\<rparr>" "start_state"]
    Collect_counts_one_query [of stub_env "\<lparr>symbols = [''AAA'', ''BBB'', ''CCC'']\<rparr>" "start_state"]
  by (simp add: start_state_def)

text \<open>
  C8. Every pass of the loop records exactly one observation, the time the call of
  \<open>Memoize\<close> took on the clock, before the outcome is looked at: the same holds for
  a price, an error and a value that is no \<open>float64\<close>. Over a whole \<open>Collect\<close> there
  are as many new observations as new samples and counted errors together, and one
  more when the call ends in a panic: the observation of the symbol whose sample could
  not be built.
\<close>

theorem Collect_observes_every_fetch:
  "queryDuration (snd (collect_symbol env symbol st))
     = queryDuration st @ [now (snd (Memoize symbol (cachedFetcher env symbol) st)) - now st]
   \<and> length (queryDuration (snd (collector_Collect env c st))) + length (ch st) + errorCount st
     = length (queryDuration st) + length (ch (snd (collector_Collect env c st)))
         + errorCount (snd (collector_Collect env c st))
         + (if fst (collector_Collect env c st) = Panicked then 1 else 0)"
  using range_symbols_balance [of env "symbols c" "st\<lparr>queryCount := queryCount st + 1\<rparr>"]
  by (simp add: collector_Collect_def collect_symbol_queryDuration)

theorem Collect_observes_every_fetch_witness:
  "queryDuration (snd (collect_symbol stub_env ''AAA'' start_state)) = [1000000]
   \<and> queryDuration (snd (collect_symbol stub_env ''BBB'' start_state)) = [1000000]
   \<and> queryDuration (snd (collect_symbol nokey_env ''AAA'' start_state)) = [0]
   \<and> length (queryDuration (snd (collector_Collect stub_env
          \<lparr>symbols = [''AAA'', ''BBB'', ''CCC'']\<rparr> start_state))) = 2
   \<and> newCollector \<lparr>RawQuery = ''symbols=AAA,%ff,CCC''\<rparr>
       = Inr \<lparr>symbols = [''AAA'', [CHR 0xFF], ''CCC'']\<rparr>
   \<and> fst (collector_Collect quoting_env \<lparr>symbols = [''AAA'', [CHR 0xFF], ''CCC'']\<rparr> start_state)
       = Panicked
   \<and> length (queryDuration (snd (collector_Collect quoting_env
          \<lparr>symbols = [''AAA'', [CHR 0xFF], ''CCC'']\<rparr> start_state))) = 2
   \<and> length (ch (snd (collector_Collect quoting_env
          \<lparr>symbols = [''AAA'', [CHR 0xFF], ''CCC'']\<rparr> start_state))) = 1
   \<and> errorCount (snd (collector_Collect quoting_env
          \<lparr>symbols = [''AAA'', [CHR 0xFF], ''CCC'']\<rparr> start_state)) = 0"
proof -
  have p: "newCollector \<lparr>RawQuery = ''symbols=AAA,%ff,CCC''\<rparr>
       = Inr \<lparr>symbols = [''AAA'', [CHR 0xFF], ''CCC'']\<rparr>"
    by (simp add: parse_defs char_defs)
  have q: "fst (collector_Collect quoting_env \<lparr>symbols = [''AAA'', [CHR 0xFF], ''CCC'']\<rparr> start_state)
       = Panicked"
    "length (ch (snd (collector_Collect quoting_env
          \<lparr>symbols = [''AAA'', [CHR 0xFF], ''CCC'']\<rparr> start_state))) = 1"
    "errorCount (snd (collector_Collect quoting_env
          \<lparr>symbols = [''AAA'', [CHR 0xFF], ''CCC'']\<rparr> start_state)) = 0"
    by (simp_all add: run_defs quoting_env_def stub_env_def stub_net_def Quote_def)
  show ?thesis
    using Collect_observes_every_fetch [of stub_env "''AAA''" start_state "\<lparr>symbols = []\<rparr>"]
      Collect_observes_every_fetch [of stub_env "''BBB''" start_state
        "\<lparr>symbols = [''AAA'', ''BBB'', ''CCC'']\<rparr>"]
      Collect_observes_every_fetch [of nokey_env "''AAA''" start_state "\<lparr>symbols = []\<rparr>"]
      Collect_observes_every_fetch [of quoting_env "''AAA''" start_state
        "\<lparr>symbols = [''AAA'', [CHR 0xFF], ''CCC'']\<rparr>"] p q
    by (simp add: run_defs stub_env_def nokey_env_def stub_Quote_def)
qed

text \<open>
  C10. One call of \<open>Collect\<close> adds at most one to the error counter: a pass of the
  loop that fails, by an error or by a value that is no \<open>float64\<close>, counts one error
  and ends the whole call, so no later symbol is looked at; a pass that ends in any
  other way counts none.
\<close>

theorem Collect_counts_at_most_one_error:
  "errorCount st \<le> errorCount (snd (collector_Collect env c st))
   \<and> errorCount (snd (collector_Collect env c st)) \<le> errorCount st + 1
   \<and> (fst (collect_symbol env symbol st) \<noteq> Completed \<longrightarrow>
        range_symbols env (symbol # rest) st = collect_symbol env symbol st)
   \<and> (fst (collect_symbol env symbol st) = Returned \<longrightarrow>
        errorCount (snd (collect_symbol env symbol st)) = errorCount st + 1)
   \<and> (fst (collect_symbol env symbol st) \<noteq> Returned \<longrightarrow>
        errorCount (snd (collect_symbol env symbol st)) = errorCount st)"
  using range_symbols_errorCount [of "st\<lparr>queryCount := queryCount st + 1\<rparr>" env "symbols c"]
    collect_symbol_errorCount [of env symbol st]
  by (simp add: collector_Collect_def collect_symbol_stop del: range_symbols.simps)

theorem Collect_counts_at_most_one_error_witness:
  "fst (collect_symbol stub_env ''BBB'' start_state) = Returned
   \<and> range_symbols stub_env [''BBB'', ''CCC'', ''DDD''] start_state
       = collect_symbol stub_env ''BBB'' start_state
   \<and> errorCount (snd (collect_symbol stub_env ''BBB'' start_state)) = 1
   \<and> errorCount (snd (collector_Collect stub_env \<lparr>symbols = [''BBB'', ''CCC'', ''DDD'']\<rparr> start_state)) \<le> 1"
  using Collect_counts_at_most_one_error [of start_state stub_env
      "\<lparr>symbols = [''BBB'', ''CCC'', ''DDD'']\<rparr>" "''BBB''" "[''CCC'', ''DDD'']"]
  by (simp add: run_defs stub_env_def stub_Quote_def)

end
